theory Spec2Isabelle
  imports Complex_Main "HOL-Library.Multiset"
begin

section \<open>Data model\<close>

text \<open>
  A JavaScript \<^verbatim>\<open>Date\<close> is its time value: an integral number of milliseconds since the
  epoch, or NaN for an invalid date. It is modelled as \<open>int option\<close>, \<open>None\<close> being NaN.
  Time values are integers of magnitude at most 8.64e15 and the interval lengths used below
  are at most 8.64e7, so the double-precision quotient, floor and product of the source are
  the exact integer ones.

  The relational operators on dates compare the time values; a comparison with NaN is false.
\<close>

type_synonym date = "int option"

fun date_ge :: "date \<Rightarrow> date \<Rightarrow> bool" where
  "date_ge (Some a) (Some b) = (a \<ge> b)"
| "date_ge _ _ = False"

fun date_le :: "date \<Rightarrow> date \<Rightarrow> bool" where
  "date_le (Some a) (Some b) = (a \<le> b)"
| "date_le _ _ = False"

text \<open>
  The host's library functions the code calls: the \<^verbatim>\<open>Date\<close> constructor on a string
  (\<open>None\<close> when the string does not parse) and the two locale formatters, which depend on
  the host's locale data and time zone. The label type is left open.
\<close>

record 'l runtime =
  parseDate :: "string \<Rightarrow> date"
  toLocaleTimeString :: "int \<Rightarrow> 'l"
  toLocaleDateString :: "int \<Rightarrow> 'l"

datatype TimeRange = T12h | T1d | T7d | T30d

text \<open>
  The statistics the dashboard fetches. Of \<^verbatim>\<open>StatsResponse\<close> the user lists
  (\<^verbatim>\<open>latest_users\<close>, \<^verbatim>\<open>paid_subscription_users\<close>, \<^verbatim>\<open>all_users_timeline\<close>), which the
  conversation chart does not read, are left out.
\<close>

record Conversation =
  conversation_id :: string
  user_id :: string
  created_at :: string

record StatsResponse =
  total_users :: nat
  paid_subscription_count :: nat
  conversation_history :: "Conversation list"

section \<open>The chart data of DashboardEntry\<close>

text \<open>The \<^verbatim>\<open>switch (timeRange)\<close>: start of the window, interval length, label formatter.\<close>

fun startTime :: "TimeRange \<Rightarrow> int \<Rightarrow> int" where
  "startTime T12h now = now - 12 * 60 * 60 * 1000"
| "startTime T1d now = now - 24 * 60 * 60 * 1000"
| "startTime T7d now = now - 7 * 24 * 60 * 60 * 1000"
| "startTime T30d now = now - 30 * 24 * 60 * 60 * 1000"

fun intervalMs :: "TimeRange \<Rightarrow> int" where
  "intervalMs T12h = 60 * 60 * 1000"
| "intervalMs T1d = 2 * 60 * 60 * 1000"
| "intervalMs T7d = 24 * 60 * 60 * 1000"
| "intervalMs T30d = 24 * 60 * 60 * 1000"

fun formatLabel :: "'l runtime \<Rightarrow> TimeRange \<Rightarrow> int \<Rightarrow> 'l" where
  "formatLabel env T12h t = toLocaleTimeString env t"
| "formatLabel env T1d t = toLocaleTimeString env t"
| "formatLabel env T7d t = toLocaleDateString env t"
| "formatLabel env T30d t = toLocaleDateString env t"

text \<open>\<^verbatim>\<open>Math.floor(t / intervalMs) * intervalMs\<close>, written inline twice in the source.\<close>

definition bucketTimestamp :: "TimeRange \<Rightarrow> int \<Rightarrow> int" where
  "bucketTimestamp r t = (t div intervalMs r) * intervalMs r"

definition filteredConversations ::
  "'l runtime \<Rightarrow> StatsResponse \<Rightarrow> TimeRange \<Rightarrow> int \<Rightarrow> Conversation list" where
  "filteredConversations env s r now =
     filter (\<lambda>conv. let convDate = parseDate env (created_at conv)
                     in date_ge convDate (Some (startTime r now)) \<and> date_le convDate (Some now))
            (conversation_history s)"

text \<open>
  A JavaScript \<^verbatim>\<open>Map\<close> keeps its entries in insertion order; \<^verbatim>\<open>set\<close> on a key that is
  present replaces the value where the entry stands, and appends otherwise.
\<close>

type_synonym 'l buckets = "(int \<times> ('l \<times> nat)) list"

fun map_set :: "'k \<Rightarrow> 'v \<Rightarrow> ('k \<times> 'v) list \<Rightarrow> ('k \<times> 'v) list" where
  "map_set k v [] = [(k, v)]"
| "map_set k v ((k', v') # m) = (if k' = k then (k, v) # m else (k', v') # map_set k v m)"

definition map_get :: "('k \<times> 'v) list \<Rightarrow> 'k \<Rightarrow> 'v option" where
  "map_get m k = map_of m k"

text \<open>The loop \<^verbatim>\<open>while (currentTime <= now)\<close> that creates every bucket with count 0.\<close>

function initBuckets ::
  "'l runtime \<Rightarrow> TimeRange \<Rightarrow> int \<Rightarrow> int \<Rightarrow> 'l buckets \<Rightarrow> 'l buckets" where
  "initBuckets env r now currentTime buckets =
     (if currentTime \<le> now then
        initBuckets env r now (currentTime + intervalMs r)
          (map_set (bucketTimestamp r currentTime) (formatLabel env r currentTime, 0) buckets)
      else buckets)"
  by pat_completeness auto
termination
proof (relation "measure (\<lambda>(env, r, now, currentTime, buckets). nat (now - currentTime + 1))")
  show "wf (measure (\<lambda>(env :: 'l runtime, r, now, currentTime, buckets :: 'l buckets).
                       nat (now - currentTime + 1)))"
    by simp
next
  fix env :: "'l runtime" and r and now currentTime :: int and buckets :: "'l buckets"
  assume "currentTime \<le> now"
  moreover have "0 < intervalMs r"
    by (cases r) simp_all
  ultimately show "((env, r, now, currentTime + intervalMs r,
               map_set (bucketTimestamp r currentTime) (formatLabel env r currentTime, 0) buckets),
              (env, r, now, currentTime, buckets))
             \<in> measure (\<lambda>(env, r, now, currentTime, buckets). nat (now - currentTime + 1))"
    by simp
qed

declare initBuckets.simps [simp del]

text \<open>
  The \<^verbatim>\<open>forEach\<close> over the filtered conversations: the bucket of the conversation's key
  is looked up and, when there is one, its count is incremented in place.
\<close>

definition countConversation ::
  "'l runtime \<Rightarrow> TimeRange \<Rightarrow> 'l buckets \<Rightarrow> Conversation \<Rightarrow> 'l buckets" where
  "countConversation env r buckets conv =
     (case parseDate env (created_at conv) of
        None \<Rightarrow> buckets
      | Some t \<Rightarrow>
          (case map_get buckets (bucketTimestamp r t) of
             Some (label, cnt) \<Rightarrow> map_set (bucketTimestamp r t) (label, cnt + 1) buckets
           | None \<Rightarrow> buckets))"

definition bucketEntries ::
  "'l runtime \<Rightarrow> StatsResponse \<Rightarrow> TimeRange \<Rightarrow> int \<Rightarrow> 'l buckets" where
  "bucketEntries env s r now =
     foldl (countConversation env r)
       (initBuckets env r now (startTime r now) [])
       (filteredConversations env s r now)"

text \<open>
  The entries as rows \<open>(timestamp, time, conversations)\<close>, sorted by timestamp
  (\<^verbatim>\<open>Array.prototype.sort\<close> is stable), and the final projection that drops the timestamp.
\<close>

definition chartRows ::
  "'l runtime \<Rightarrow> StatsResponse \<Rightarrow> TimeRange \<Rightarrow> int \<Rightarrow> (int \<times> 'l \<times> nat) list" where
  "chartRows env s r now = sort_key fst (bucketEntries env s r now)"

definition chartData ::
  "'l runtime \<Rightarrow> StatsResponse option \<Rightarrow> TimeRange \<Rightarrow> int \<Rightarrow> ('l \<times> nat) list" where
  "chartData env st r now =
     (case st of
        None \<Rightarrow> []
      | Some s \<Rightarrow> map snd (chartRows env s r now))"

text \<open>
  The bucket the \<open>i\<close>-th iteration of the initialisation loop creates when the loop starts
  at \<open>start\<close>: the loop instant is \<open>start + i * intervalMs\<close>.
\<close>

definition loopInstant :: "TimeRange \<Rightarrow> int \<Rightarrow> nat \<Rightarrow> int" where
  "loopInstant r start i = start + int i * intervalMs r"

definition bucketAt :: "'l runtime \<Rightarrow> TimeRange \<Rightarrow> int \<Rightarrow> nat \<Rightarrow> int \<times> 'l \<times> nat" where
  "bucketAt env r start i =
     (bucketTimestamp r (loopInstant r start i), formatLabel env r (loopInstant r start i), 0)"

definition bucketCount :: "TimeRange \<Rightarrow> nat" where
  "bucketCount r = (case r of T12h \<Rightarrow> 13 | T1d \<Rightarrow> 13 | T7d \<Rightarrow> 8 | T30d \<Rightarrow> 31)"

text \<open>Whether a conversation's parsed timestamp lies in the closed window.\<close>

definition inWindow :: "'l runtime \<Rightarrow> TimeRange \<Rightarrow> int \<Rightarrow> Conversation \<Rightarrow> bool" where
  "inWindow env r now conv =
     (case parseDate env (created_at conv) of
        None \<Rightarrow> False
      | Some t \<Rightarrow> startTime r now \<le> t \<and> t \<le> now)"

text \<open>The key a conversation is counted under; \<open>None\<close> when its timestamp is NaN.\<close>

definition conversationKey :: "'l runtime \<Rightarrow> TimeRange \<Rightarrow> Conversation \<Rightarrow> int option" where
  "conversationKey env r conv = map_option (bucketTimestamp r) (parseDate env (created_at conv))"

text \<open>The sum of the counts held in a bucket map.\<close>

definition totalCount :: "'l buckets \<Rightarrow> nat" where
  "totalCount m = sum_list (map (\<lambda>(k, l, c). c) m)"

section \<open>The overview statistics\<close>

text \<open>
  A conversation as the overview and the conversation list receive it, with the fields the
  average and the sort read and two of the others. A JavaScript number is modelled as an
  exact rational; an absent (or null) optional field is \<open>None\<close>.
\<close>

record ConversationInfo =
  topic :: string
  generated_at :: string
  word_count :: nat
  quality_rating :: "rat option"

text \<open>
  Truthiness of an optional number: absent and zero are falsy. \<open>or_zero v\<close> is the
  source's \<^verbatim>\<open>v || 0\<close>.
\<close>

definition truthy :: "rat option \<Rightarrow> bool" where
  "truthy v = (case v of None \<Rightarrow> False | Some q \<Rightarrow> q \<noteq> 0)"

definition or_zero :: "rat option \<Rightarrow> rat" where
  "or_zero v = (case v of None \<Rightarrow> 0 | Some q \<Rightarrow> if q \<noteq> 0 then q else 0)"

text \<open>
  Division of numbers. JavaScript returns NaN or an infinity for a zero divisor; the model
  returns \<open>None\<close> there, so that a result \<open>Some q\<close> says that no division by zero happened.
\<close>

definition divide_number :: "rat \<Rightarrow> rat \<Rightarrow> rat option" where
  "divide_number a b = (if b = 0 then None else Some (a / b))"

definition calculateAverageRating :: "ConversationInfo list \<Rightarrow> rat option" where
  "calculateAverageRating conversations =
     (let ratingsCount = length (filter (\<lambda>c. truthy (quality_rating c)) conversations)
      in if ratingsCount = 0 then Some 0
         else
           let totalRating =
                 foldl (\<lambda>sum conv. sum + or_zero (quality_rating conv)) 0 conversations
           in divide_number totalRating (rat_of_nat ratingsCount))"

text \<open>
  The average as the claim words it: a conversation is rated when its rating is present and
  not zero; without a rated conversation the average is 0, otherwise it is the sum of all
  ratings, a missing one counting 0, divided by the number of rated conversations.
\<close>

definition rated :: "ConversationInfo \<Rightarrow> bool" where
  "rated c = (quality_rating c \<noteq> None \<and> quality_rating c \<noteq> Some 0)"

definition averageRating_spec :: "ConversationInfo list \<Rightarrow> rat" where
  "averageRating_spec cs =
     (if \<not> (\<exists>c \<in> set cs. rated c) then 0
      else sum_list (map (\<lambda>c. case quality_rating c of None \<Rightarrow> 0 | Some q \<Rightarrow> q) cs)
           / rat_of_nat (length (filter rated cs)))"

section \<open>Pagination of the conversation and note lists\<close>

text \<open>
  A note; its \<^verbatim>\<open>created_at\<close> field is named \<open>note_created_at\<close> here, the name
  \<open>created_at\<close> being taken by the conversations of the dashboard.
\<close>

record NoteInfo =
  file_name :: string
  note_created_at :: string

text \<open>
  The comparators subtract two \<^verbatim>\<open>getTime()\<close> values; the difference is NaN (\<open>None\<close>) when
  either date is invalid.
\<close>

definition time_diff :: "date \<Rightarrow> date \<Rightarrow> int option" where
  "time_diff a b = (case (a, b) of (Some x, Some y) \<Rightarrow> Some (x - y) | _ \<Rightarrow> None)"

text \<open>
  \<^verbatim>\<open>Array.prototype.sort\<close> with a comparator, as V8 (the engine of Chrome and Node.js) runs
  it. The language fixes the result only for a consistent comparator; with NaN results the
  order is the engine's own, so the model follows the engine's steps. A comparator result of
  NaN counts as 0.
\<close>

definition Compare :: "('a \<Rightarrow> 'a \<Rightarrow> int option) \<Rightarrow> 'a \<Rightarrow> 'a \<Rightarrow> int" where
  "Compare comparefn x y = (case comparefn x y of None \<Rightarrow> 0 | Some v \<Rightarrow> v)"

text \<open>
  The first run: the elements from the start that are in order, or strictly out of order, in
  which case the run is reversed. \<open>extendRun\<close> is the loop that compares each further element
  with its predecessor.
\<close>

fun extendRun :: "('a \<Rightarrow> 'a \<Rightarrow> int option) \<Rightarrow> bool \<Rightarrow> 'a \<Rightarrow> 'a list \<Rightarrow> nat" where
  "extendRun comparefn isDescending previousElement [] = 0"
| "extendRun comparefn isDescending previousElement (currentElement # rest) =
     (let order = Compare comparefn currentElement previousElement
      in if (if isDescending then order \<ge> 0 else order < 0) then 0
         else Suc (extendRun comparefn isDescending currentElement rest))"

fun CountAndMakeRun :: "('a \<Rightarrow> 'a \<Rightarrow> int option) \<Rightarrow> 'a list \<Rightarrow> nat \<times> 'a list" where
  "CountAndMakeRun comparefn (elementHigh # elementLow # rest) =
     (let isDescending = (Compare comparefn elementLow elementHigh < 0);
          runLength = 2 + extendRun comparefn isDescending elementLow rest;
          workArray = elementHigh # elementLow # rest
      in (runLength,
          if isDescending then rev (take runLength workArray) @ drop runLength workArray
          else workArray))"
| "CountAndMakeRun comparefn workArray = (length workArray, workArray)"

text \<open>
  Binary insertion of the elements after the run: the pivot \<open>workArray[start]\<close> goes to the
  place a binary search over \<open>[0, start)\<close> finds for it.
\<close>

function insertionPoint ::
  "('a \<Rightarrow> 'a \<Rightarrow> int option) \<Rightarrow> 'a \<Rightarrow> 'a list \<Rightarrow> nat \<Rightarrow> nat \<Rightarrow> nat" where
  "insertionPoint comparefn pivot workArray left right =
     (if left < right then
        (let mid = left + (right - left) div 2;
             order = Compare comparefn pivot (workArray ! mid)
         in if order < 0 then insertionPoint comparefn pivot workArray left mid
            else insertionPoint comparefn pivot workArray (mid + 1) right)
      else left)"
  by pat_completeness auto
termination
  by (relation "measure (\<lambda>(comparefn, pivot, workArray, left, right). right - left)") auto

declare insertionPoint.simps [simp del]

definition insertPivot :: "('a \<Rightarrow> 'a \<Rightarrow> int option) \<Rightarrow> 'a list \<Rightarrow> nat \<Rightarrow> 'a list" where
  "insertPivot comparefn workArray start =
     (let pivot = workArray ! start;
          left = insertionPoint comparefn pivot workArray 0 start
      in take left workArray @ pivot # drop left (take start workArray)
         @ drop (Suc start) workArray)"

definition BinaryInsertionSort ::
  "('a \<Rightarrow> 'a \<Rightarrow> int option) \<Rightarrow> 'a list \<Rightarrow> nat \<Rightarrow> 'a list" where
  "BinaryInsertionSort comparefn workArray start =
     foldl (insertPivot comparefn) workArray [start..<length workArray]"

text \<open>
  An array of fewer than 64 elements is one run extended by binary insertion to the whole
  array. A longer array is cut into several runs that a galloping merge joins; the model does
  not cover it and returns \<open>None\<close>.
\<close>

definition array_sort :: "('a \<Rightarrow> 'a \<Rightarrow> int option) \<Rightarrow> 'a list \<Rightarrow> 'a list option" where
  "array_sort comparefn xs =
     (if length xs < 2 then Some xs
      else if length xs < 64 then
        (let (currentRunLength, workArray) = CountAndMakeRun comparefn xs
         in Some (if currentRunLength < length xs
                  then BinaryInsertionSort comparefn workArray currentRunLength
                  else workArray))
      else None)"

text \<open>
  \<^verbatim>\<open>Array.prototype.slice(start, end)\<close>: a negative index counts from the end, and both
  indices are clamped to the length.
\<close>

definition array_slice :: "int \<Rightarrow> int \<Rightarrow> 'a list \<Rightarrow> 'a list" where
  "array_slice start fin xs =
     (let len = int (length xs);
          k = (if start < 0 then max (len + start) 0 else min start len);
          final = (if fin < 0 then max (len + fin) 0 else min fin len)
      in take (nat (final - k)) (drop (nat k) xs))"

text \<open>
  The \<^verbatim>\<open>RecentConversations\<close> component; the sorted list and the page are \<open>None\<close> where
  the model of the sort is.
\<close>

definition conversationsPerPage :: int where
  "conversationsPerPage = 50"

definition RecentConversations_totalPages :: "ConversationInfo list \<Rightarrow> int" where
  "RecentConversations_totalPages conversations =
     \<lceil>rat_of_nat (length conversations) / rat_of_int conversationsPerPage\<rceil>"

definition sortedConversations ::
  "'l runtime \<Rightarrow> ConversationInfo list \<Rightarrow> ConversationInfo list option" where
  "sortedConversations env conversations =
     array_sort (\<lambda>a b. time_diff (parseDate env (generated_at b)) (parseDate env (generated_at a)))
       conversations"

definition currentConversations ::
  "'l runtime \<Rightarrow> ConversationInfo list \<Rightarrow> int \<Rightarrow> ConversationInfo list option" where
  "currentConversations env conversations currentPage =
     (let indexOfLastConversation = currentPage * conversationsPerPage;
          indexOfFirstConversation = indexOfLastConversation - conversationsPerPage
      in map_option (array_slice indexOfFirstConversation indexOfLastConversation)
           (sortedConversations env conversations))"

text \<open>The \<^verbatim>\<open>NotesPage\<close> component, in the same way.\<close>

definition notesPerPage :: int where
  "notesPerPage = 25"

definition NotesPage_totalPages :: "NoteInfo list \<Rightarrow> int" where
  "NotesPage_totalPages notes = \<lceil>rat_of_nat (length notes) / rat_of_int notesPerPage\<rceil>"

definition sortedNotes :: "'l runtime \<Rightarrow> NoteInfo list \<Rightarrow> NoteInfo list option" where
  "sortedNotes env notes =
     array_sort (\<lambda>a b. time_diff (parseDate env (note_created_at b))
                                 (parseDate env (note_created_at a)))
       notes"

definition currentNotes :: "'l runtime \<Rightarrow> NoteInfo list \<Rightarrow> int \<Rightarrow> NoteInfo list option" where
  "currentNotes env notes currentPage =
     (let indexOfLastNote = currentPage * notesPerPage;
          indexOfFirstNote = indexOfLastNote - notesPerPage
      in map_option (array_slice indexOfFirstNote indexOfLastNote) (sortedNotes env notes))"

section \<open>Worked example data\<close>

text \<open>
  A runtime for the worked examples. The parser is the \<^verbatim>\<open>Date\<close> constructor tabulated at
  the date-time strings the examples use; every other string of the examples (a free text, an
  ISO-8601 week date) is one the constructor does not parse. The formatters return the instant
  they are applied to, so that a label shows where the formatter was called.
\<close>

definition exampleRuntime :: "int runtime" where
  "exampleRuntime =
     \<lparr>parseDate = map_of
        [(''2024-01-01T10:00:00Z'', 1704103200000),
         (''2024-01-02T00:00:00Z'', 1704153600000),
         (''2024-01-02T06:30:00Z'', 1704177000000),
         (''2024-01-02T12:00:00Z'', 1704196800000)],
      toLocaleTimeString = (\<lambda>t. t),
      toLocaleDateString = (\<lambda>t. t)\<rparr>"

definition conversationAt :: "string \<Rightarrow> Conversation" where
  "conversationAt ts = \<lparr>conversation_id = ''c'', user_id = ''u'', created_at = ts\<rparr>"

definition exampleStats :: StatsResponse where
  "exampleStats =
     \<lparr>total_users = 4, paid_subscription_count = 1,
      conversation_history =
        [conversationAt ''2024-01-02T06:30:00Z'',
         conversationAt ''2024-01-02T00:00:00Z'',
         conversationAt ''2024-01-01T10:00:00Z'',
         conversationAt ''yesterday-ish'',
         conversationAt ''2024-01-02T12:00:00Z'']\<rparr>"

text \<open>2024-01-02T12:00:00Z as a time value.\<close>

definition exampleNow :: int where
  "exampleNow = 1704196800000"

text \<open>Conversations and notes for the overview and the paginated lists.\<close>

definition exampleInfo :: "string \<Rightarrow> rat option \<Rightarrow> ConversationInfo" where
  "exampleInfo ts q = \<lparr>topic = ''t'', generated_at = ts, word_count = 100, quality_rating = q\<rparr>"

definition ratedConversation :: "rat option \<Rightarrow> ConversationInfo" where
  "ratedConversation q = exampleInfo ''2024-01-02T00:00:00Z'' q"

definition exampleNote :: "string \<Rightarrow> NoteInfo" where
  "exampleNote ts = \<lparr>file_name = ''n.md'', note_created_at = ts\<rparr>"

section \<open>Properties of the chart data\<close>

lemma intervalMs_pos: "0 < intervalMs r"
  by (cases r) simp_all

subsection \<open>Interval alignment\<close>

lemma bucketTimestamp_step:
  "bucketTimestamp r (t + intervalMs r) = bucketTimestamp r t + intervalMs r"
  using intervalMs_pos [of r] by (simp add: bucketTimestamp_def distrib_right)

lemma bucketTimestamp_loopInstant:
  "bucketTimestamp r (loopInstant r t i) = bucketTimestamp r t + int i * intervalMs r"
  using intervalMs_pos [of r] by (simp add: bucketTimestamp_def loopInstant_def distrib_right)

lemma bucketTimestamp_le: "bucketTimestamp r t \<le> t"
  using intervalMs_pos [of r] pos_mod_sign [of "intervalMs r" t]
    div_mult_mod_eq [of t "intervalMs r"]
  unfolding bucketTimestamp_def by linarith

lemma bucketTimestamp_gt: "t < bucketTimestamp r t + intervalMs r"
  using intervalMs_pos [of r] pos_mod_bound [of "intervalMs r" t]
    div_mult_mod_eq [of t "intervalMs r"]
  unfolding bucketTimestamp_def by linarith

lemma bucketTimestamp_fixed: "(bucketTimestamp r t = t) = (t mod intervalMs r = 0)"
  using div_mult_mod_eq [of t "intervalMs r"]
  unfolding bucketTimestamp_def by linarith

lemma bucketTimestamp_mod: "bucketTimestamp r t mod intervalMs r = 0"
  by (simp add: bucketTimestamp_def)

subsection \<open>The initialisation loop\<close>

lemma map_set_fresh: "k \<notin> fst ` set m \<Longrightarrow> map_set k v m = m @ [(k, v)]"
  by (induction m) auto

lemma map_set_keys:
  "map fst (map_set k v m) = (if k \<in> fst ` set m then map fst m else map fst m @ [k])"
  by (induction m) (auto simp: rev_image_eqI)

lemma initBuckets_explicit:
  "\<forall>k \<in> fst ` set m. k < bucketTimestamp r cur \<Longrightarrow>
   initBuckets env r now cur m =
     m @ map (bucketAt env r cur) [0..<nat ((now - cur) div intervalMs r + 1)]"
proof (induction env r now cur m rule: initBuckets.induct)
  case (1 env r now cur m)
  let ?I = "intervalMs r"
  have Ipos: "0 < ?I" by (rule intervalMs_pos)
  show ?case
  proof (cases "cur \<le> now")
    case False
    then have "(now - cur) div ?I < 0"
      using Ipos by (simp add: div_neg_pos_less0)
    then have "nat ((now - cur) div ?I + 1) = 0" by simp
    with False show ?thesis by (simp add: initBuckets.simps [of env r now cur m])
  next
    case True
    let ?k = "bucketTimestamp r cur"
    let ?v = "(formatLabel env r cur, 0::nat)"
    have fresh: "?k \<notin> fst ` set m" using "1.prems" by auto
    have set_eq: "map_set ?k ?v m = m @ [(?k, ?v)]" by (rule map_set_fresh [OF fresh])
    have below: "\<forall>k \<in> fst ` set (map_set ?k ?v m). k < bucketTimestamp r (cur + ?I)"
      using "1.prems" Ipos by (auto simp: set_eq bucketTimestamp_step)
    have n: "nat ((now - cur) div ?I + 1) = Suc (nat ((now - (cur + ?I)) div ?I + 1))"
    proof -
      have "(now - (cur + ?I) + ?I) div ?I = (now - (cur + ?I)) div ?I + 1"
        using Ipos by (intro div_add_self2) simp
      then have "(now - (cur + ?I)) div ?I = (now - cur) div ?I - 1"
        by (simp add: algebra_simps)
      moreover have "0 \<le> (now - cur) div ?I"
        using True Ipos by (simp add: pos_imp_zdiv_nonneg_iff)
      ultimately show ?thesis by simp
    qed
    have shift: "map (bucketAt env r cur) [0..<Suc j] =
                 (?k, ?v) # map (bucketAt env r (cur + ?I)) [0..<j]" for j
    proof -
      have "bucketAt env r cur (Suc i) = bucketAt env r (cur + ?I) i" for i
        by (simp add: bucketAt_def loopInstant_def algebra_simps)
      moreover have "bucketAt env r cur 0 = (?k, ?v)" by (simp add: bucketAt_def loopInstant_def)
      ultimately show ?thesis
        by (simp add: upt_conv_Cons map_Suc_upt [symmetric] del: upt_Suc)
    qed
    have "initBuckets env r now cur m = initBuckets env r now (cur + ?I) (map_set ?k ?v m)"
      using True by (simp add: initBuckets.simps [of env r now cur m])
    also have "\<dots> = map_set ?k ?v m @
         map (bucketAt env r (cur + ?I)) [0..<nat ((now - (cur + ?I)) div ?I + 1)]"
      using "1.IH" [OF True below] .
    finally show ?thesis by (simp add: set_eq n shift del: upt_Suc)
  qed
qed

lemma window_iterations: "nat ((now - startTime r now) div intervalMs r + 1) = bucketCount r"
  by (cases r) (simp_all add: bucketCount_def)

lemma window_ceiling:
  "nat (\<lceil>rat_of_int (now - startTime r now) / rat_of_int (intervalMs r)\<rceil> + 1) = bucketCount r"
  by (cases r) (simp_all add: bucketCount_def)

lemma window_exact: "now div intervalMs r = startTime r now div intervalMs r + int (bucketCount r) - 1"
  by (cases r) (simp_all add: bucketCount_def)

lemma initial_buckets:
  "initBuckets env r now (startTime r now) [] =
     map (bucketAt env r (startTime r now)) [0..<bucketCount r]"
  using initBuckets_explicit [of "[]" r "startTime r now" env now]
  by (simp add: window_iterations)

lemma initial_keys:
  "map fst (initBuckets env r now (startTime r now) []) =
     map (\<lambda>i. bucketTimestamp r (startTime r now) + int i * intervalMs r) [0..<bucketCount r]"
  by (simp add: initial_buckets bucketAt_def bucketTimestamp_loopInstant)

lemma initial_keys_ascending:
  "sorted_wrt (<) (map fst (initBuckets env r now (startTime r now) []))"
  using intervalMs_pos [of r]
  by (simp add: initial_keys sorted_wrt_iff_nth_less)

subsection \<open>The counting loop\<close>

lemma filtered_inWindow:
  "filteredConversations env s r now = filter (inWindow env r now) (conversation_history s)"
proof -
  have "(let convDate = parseDate env (created_at conv)
         in date_ge convDate (Some (startTime r now)) \<and> date_le convDate (Some now))
        = inWindow env r now conv" for conv
    by (cases "parseDate env (created_at conv)") (simp_all add: inWindow_def)
  then show ?thesis by (simp add: filteredConversations_def)
qed

lemma map_of_map_set: "map_of (map_set k v m) k' = (if k' = k then Some v else map_of m k')"
  by (induction m) auto

lemma map_of_keys: "(map_of m k = None) = (k \<notin> fst ` set m)"
  by (simp add: map_of_eq_None_iff)

lemma countConversation_keys: "map fst (countConversation env r m conv) = map fst m"
  by (auto simp: countConversation_def map_get_def map_set_keys map_of_keys [symmetric]
           split: option.splits)

lemma counting_keys: "map fst (foldl (countConversation env r) m cs) = map fst m"
  by (induction cs arbitrary: m) (simp_all add: countConversation_keys)

lemma totalCount_map_set:
  "map_of m k = Some (l, c) \<Longrightarrow> totalCount (map_set k (l, Suc c) m) = Suc (totalCount m)"
  by (induction m) (auto simp: totalCount_def)

lemma countConversation_total:
  "totalCount (countConversation env r m conv) =
     totalCount m + (if \<exists>k. conversationKey env r conv = Some k \<and> k \<in> fst ` set m then 1 else 0)"
  by (auto simp: countConversation_def conversationKey_def map_get_def totalCount_map_set
                 map_of_keys [symmetric] split: option.splits)

lemma counting_total:
  "totalCount (foldl (countConversation env r) m cs) =
     totalCount m +
     length (filter (\<lambda>conv. \<exists>k. conversationKey env r conv = Some k \<and> k \<in> fst ` set m) cs)"
proof (induction cs arbitrary: m)
  case Nil
  show ?case by simp
next
  case (Cons conv cs)
  have keys: "fst ` set (countConversation env r m conv) = fst ` set m"
    using countConversation_keys [of env r m conv] by (metis set_map)
  show ?case
    by (simp add: Cons.IH keys countConversation_total)
qed

lemma countConversation_lookup:
  "map_of (countConversation env r m conv) k =
     map_option (\<lambda>(l, c). (l, c + (if conversationKey env r conv = Some k then 1 else 0)))
       (map_of m k)"
  by (cases "map_of m k")
     (auto simp: countConversation_def conversationKey_def map_get_def map_of_map_set
           split: option.splits)

lemma counting_lookup:
  "map_of (foldl (countConversation env r) m cs) k =
     map_option (\<lambda>(l, c). (l, c + length (filter (\<lambda>conv. conversationKey env r conv = Some k) cs)))
       (map_of m k)"
proof (induction cs arbitrary: m)
  case Nil
  show ?case by (simp add: option.map_ident case_prod_unfold)
next
  case (Cons conv cs)
  show ?case
    by (cases "map_of m k")
       (auto simp: Cons.IH countConversation_lookup)
qed

lemma key_covered:
  assumes "startTime r now \<le> t" and "t \<le> now"
  shows "bucketTimestamp r t \<in> fst ` set (initBuckets env r now (startTime r now) [])"
proof -
  let ?I = "intervalMs r"
  let ?s = "startTime r now"
  let ?i = "nat (t div ?I - ?s div ?I)"
  have Ipos: "0 < ?I" by (rule intervalMs_pos)
  have lo: "?s div ?I \<le> t div ?I" using assms(1) Ipos by (simp add: zdiv_mono1)
  have "t div ?I \<le> now div ?I" using assms(2) Ipos by (simp add: zdiv_mono1)
  then have hi: "?i < bucketCount r" using lo window_exact [of now r] by linarith
  have "bucketTimestamp r ?s + int ?i * ?I = bucketTimestamp r t"
    using lo by (simp add: bucketTimestamp_def algebra_simps)
  then have "bucketTimestamp r t \<in>
      set (map (\<lambda>i. bucketTimestamp r ?s + int i * ?I) [0..<bucketCount r])"
    using hi by (auto simp: image_iff intro!: bexI [of _ ?i])
  moreover have "fst ` set (initBuckets env r now ?s []) =
      set (map (\<lambda>i. bucketTimestamp r ?s + int i * ?I) [0..<bucketCount r])"
    using arg_cong [OF initial_keys [of env r now], of set] by simp
  ultimately show ?thesis by simp
qed

subsection \<open>The bucket map after counting\<close>

lemma entries_keys:
  "map fst (bucketEntries env s r now) =
     map (\<lambda>i. bucketTimestamp r (startTime r now) + int i * intervalMs r) [0..<bucketCount r]"
  by (simp add: bucketEntries_def counting_keys initial_keys)

lemma entries_ascending: "sorted_wrt (<) (map fst (bucketEntries env s r now))"
  using initial_keys_ascending [of env r now]
  by (simp add: bucketEntries_def counting_keys)

lemma chartRows_entries: "chartRows env s r now = bucketEntries env s r now"
  unfolding chartRows_def
  by (rule sort_key_id_if_sorted) (rule strict_sorted_imp_sorted [OF entries_ascending])

lemma initial_total: "totalCount (initBuckets env r now (startTime r now) []) = 0"
  by (simp add: initial_buckets totalCount_def bucketAt_def comp_def)

lemma filtered_covered:
  assumes "inWindow env r now conv"
  shows "\<exists>k. conversationKey env r conv = Some k \<and>
             k \<in> fst ` set (initBuckets env r now (startTime r now) [])"
proof -
  from assms obtain t where t: "parseDate env (created_at conv) = Some t"
    and "startTime r now \<le> t" "t \<le> now"
    by (auto simp: inWindow_def split: option.splits)
  then show ?thesis
    using key_covered [of r now t env] by (simp add: conversationKey_def)
qed

lemma entries_total:
  "totalCount (bucketEntries env s r now) =
     length (filter (inWindow env r now) (conversation_history s))"
proof -
  let ?init = "initBuckets env r now (startTime r now) []"
  let ?hit = "\<lambda>conv. \<exists>k. conversationKey env r conv = Some k \<and> k \<in> fst ` set ?init"
  have "filter ?hit (filter (inWindow env r now) (conversation_history s)) =
        filter (inWindow env r now) (conversation_history s)"
    by (rule filter_True) (simp add: filtered_covered)
  then show ?thesis
    by (simp only: bucketEntries_def counting_total initial_total filtered_inWindow add_0)
qed

lemma chartData_total:
  "sum_list (map snd (chartData env (Some s) r now)) =
     length (filter (inWindow env r now) (conversation_history s))"
proof -
  have "sum_list (map snd (chartData env (Some s) r now)) = totalCount (bucketEntries env s r now)"
    by (simp add: chartData_def chartRows_entries totalCount_def comp_def case_prod_unfold)
  then show ?thesis by (simp add: entries_total)
qed

lemma length_filter_all: "(length (filter P xs) = length xs) = (\<forall>x \<in> set xs. P x)"
proof (induction xs)
  case Nil
  show ?case by simp
next
  case (Cons x xs)
  have "length (filter P xs) \<noteq> Suc (length xs)"
    using length_filter_le [of P xs] by linarith
  with Cons show ?case by auto
qed

lemma entries_lookup:
  assumes "(k, l, c) \<in> set (bucketEntries env s r now)"
  shows "c = length (filter (\<lambda>conv. inWindow env r now conv \<and> conversationKey env r conv = Some k)
                       (conversation_history s))"
proof -
  let ?init = "initBuckets env r now (startTime r now) []"
  let ?n = "length (filter (\<lambda>conv. conversationKey env r conv = Some k)
                      (filteredConversations env s r now))"
  have "distinct (map fst (bucketEntries env s r now))"
    using entries_ascending [of env s r now] by (simp add: strict_sorted_iff)
  with assms have "map_of (bucketEntries env s r now) k = Some (l, c)"
    by simp
  then have look: "map_option (\<lambda>(l, c). (l, c + ?n)) (map_of ?init k) = Some (l, c)"
    by (simp add: bucketEntries_def counting_lookup)
  then obtain l0 c0 where init: "map_of ?init k = Some (l0, c0)" and c: "c = c0 + ?n"
    by (cases "map_of ?init k") auto
  from init have "(k, l0, c0) \<in> set ?init" by (rule map_of_SomeD)
  then have "c0 = 0" by (auto simp: initial_buckets bucketAt_def)
  with c show ?thesis by (simp add: filtered_inWindow conj_commute)
qed

subsection \<open>The rows\<close>

lemma series_bucketCount: "length (chartData env (Some s) r now) = bucketCount r"
proof -
  have "length (map fst (bucketEntries env s r now)) = bucketCount r"
    by (simp only: entries_keys length_map length_upt diff_zero)
  then show ?thesis by (simp add: chartData_def chartRows_entries)
qed

lemma rows_keys:
  "fst ` set (chartRows env s r now) = fst ` set (initBuckets env r now (startTime r now) [])"
proof -
  have "map fst (chartRows env s r now) = map fst (initBuckets env r now (startTime r now) [])"
    by (simp add: chartRows_entries bucketEntries_def counting_keys)
  then have "set (map fst (chartRows env s r now)) =
             set (map fst (initBuckets env r now (startTime r now) []))"
    by (rule arg_cong)
  then show ?thesis by simp
qed

lemma rows_key_aligned:
  assumes "k \<in> fst ` set (chartRows env s r now)"
  shows "k mod intervalMs r = 0"
proof -
  have "k \<in> set (map fst (chartRows env s r now))" using assms by simp
  then have "k \<in> set (map (\<lambda>i. bucketTimestamp r (startTime r now) + int i * intervalMs r)
                          [0..<bucketCount r])"
    by (simp only: chartRows_entries entries_keys)
  then obtain i where "k = bucketTimestamp r (startTime r now) + int i * intervalMs r"
    by auto
  then show ?thesis by (simp add: bucketTimestamp_def)
qed

lemma chartData_nonempty: "chartData env (Some s) r now \<noteq> []"
proof -
  have "0 < bucketCount r" by (cases r) (simp_all add: bucketCount_def)
  then show ?thesis using series_bucketCount [of env s r now] by auto
qed

lemma rows_first_key:
  "fst (hd (chartRows env s r now)) = bucketTimestamp r (startTime r now)"
proof -
  have pos: "0 < bucketCount r" by (cases r) (simp_all add: bucketCount_def)
  have "map fst (chartRows env s r now) ! 0 = bucketTimestamp r (startTime r now)"
    using pos by (simp only: chartRows_entries entries_keys nth_map length_upt nth_upt diff_zero)
                 simp
  moreover have "chartRows env s r now \<noteq> []"
    using pos arg_cong [OF entries_keys [of env s r now], of length]
    by (auto simp: chartRows_entries)
  ultimately show ?thesis by (simp add: hd_conv_nth)
qed

lemma rows_last_key:
  "fst (last (chartRows env s r now)) = bucketTimestamp r now"
proof -
  have pos: "0 < bucketCount r" by (cases r) (simp_all add: bucketCount_def)
  have len: "length (chartRows env s r now) = bucketCount r"
    using arg_cong [OF entries_keys [of env s r now], of length]
    by (simp add: chartRows_entries)
  have "map fst (chartRows env s r now) ! (bucketCount r - 1) =
          bucketTimestamp r (startTime r now) + int (bucketCount r - 1) * intervalMs r"
    using pos by (simp only: chartRows_entries entries_keys)  simp
  also have "\<dots> = bucketTimestamp r now"
  proof -
    have "now div intervalMs r = startTime r now div intervalMs r + int (bucketCount r - 1)"
      using pos window_exact [of now r] by (simp add: of_nat_diff)
    then show ?thesis by (simp add: bucketTimestamp_def distrib_right)
  qed
  finally have nth: "map fst (chartRows env s r now) ! (bucketCount r - 1) = bucketTimestamp r now" .
  have ne: "chartRows env s r now \<noteq> []" using len pos by auto
  show ?thesis using nth len pos by (simp add: last_conv_nth [OF ne])
qed

lemma startTime_le: "startTime r now \<le> now"
  by (cases r) simp_all

lemma startTime_mod: "startTime r now mod intervalMs r = now mod intervalMs r"
proof -
  have "now = startTime r now + (int (bucketCount r) - 1) * intervalMs r"
    by (cases r) (simp_all add: bucketCount_def)
  then have "now mod intervalMs r =
             (startTime r now + (int (bucketCount r) - 1) * intervalMs r) mod intervalMs r"
    by (rule arg_cong)
  then show ?thesis by (simp only: mod_mult_self1)
qed

lemma loopInstant_mod: "loopInstant r (startTime r now) i mod intervalMs r = now mod intervalMs r"
  by (simp add: loopInstant_def startTime_mod)

lemma row_count_pos:
  assumes "(k, l, c) \<in> set (chartRows env s r now)"
    and "conv \<in> set (conversation_history s)"
    and "inWindow env r now conv"
    and "conversationKey env r conv = Some k"
  shows "0 < c"
proof -
  let ?P = "\<lambda>conv. inWindow env r now conv \<and> conversationKey env r conv = Some k"
  have "c = length (filter ?P (conversation_history s))"
    using assms(1) by (simp add: chartRows_entries entries_lookup)
  moreover have "conv \<in> set (filter ?P (conversation_history s))"
    using assms(2-4) by simp
  then have "0 < length (filter ?P (conversation_history s))"
    by (rule length_pos_if_in_set)
  ultimately show ?thesis by (simp only:)
qed

lemma chartData_filtered:
  "filteredConversations env s r now = filteredConversations env s' r now \<Longrightarrow>
   chartData env (Some s) r now = chartData env (Some s') r now"
  by (simp add: chartData_def chartRows_def bucketEntries_def)

section \<open>The claims about the chart data\<close>

text \<open>
  Claim C1. For every conversation collection and every time range, the series has exactly
  \<open>ceil((now - startTime) / intervalMs) + 1\<close> buckets, that is 13 for \<open>12h\<close>, 13 for \<open>1d\<close>,
  8 for \<open>7d\<close> and 31 for \<open>30d\<close>; the length is the same for any two collections (and any two
  runtimes) at the same range and instant.
\<close>

theorem chartData_length:
  "length (chartData env (Some s) r now) =
     nat (\<lceil>rat_of_int (now - startTime r now) / rat_of_int (intervalMs r)\<rceil> + 1)
   \<and> length (chartData env (Some s) r now) =
       (case r of T12h \<Rightarrow> 13 | T1d \<Rightarrow> 13 | T7d \<Rightarrow> 8 | T30d \<Rightarrow> 31)
   \<and> length (chartData env (Some s) r now) = length (chartData env' (Some s') r now)"
  by (simp only: series_bucketCount window_ceiling) (simp add: bucketCount_def)

text \<open>
  Claim C2. Every conversation whose timestamp lies in the closed window has a bucket under
  its key after initialisation, so the guard of the counting loop never skips it; the count
  of every bucket is the number of in-window conversations with that bucket's key; the
  counts sum to the number of in-window conversations, which is at most the number of
  conversations, with equality exactly when every conversation lies in the window.
\<close>

theorem in_range_counted_once:
  "(\<forall>conv \<in> set (conversation_history s). inWindow env r now conv \<longrightarrow>
      (\<exists>k. conversationKey env r conv = Some k \<and>
           k \<in> fst ` set (initBuckets env r now (startTime r now) [])))
   \<and> (\<forall>(k, l, c) \<in> set (chartRows env s r now).
        c = length (filter (\<lambda>conv. inWindow env r now conv \<and> conversationKey env r conv = Some k)
                     (conversation_history s)))
   \<and> sum_list (map snd (chartData env (Some s) r now)) =
       length (filter (inWindow env r now) (conversation_history s))
   \<and> sum_list (map snd (chartData env (Some s) r now)) \<le> length (conversation_history s)
   \<and> ((sum_list (map snd (chartData env (Some s) r now)) = length (conversation_history s)) =
       (\<forall>conv \<in> set (conversation_history s). inWindow env r now conv))"
proof (intro conjI)
  show "\<forall>conv \<in> set (conversation_history s). inWindow env r now conv \<longrightarrow>
      (\<exists>k. conversationKey env r conv = Some k \<and>
           k \<in> fst ` set (initBuckets env r now (startTime r now) []))"
    by (simp add: filtered_covered)
  show "\<forall>(k, l, c) \<in> set (chartRows env s r now).
        c = length (filter (\<lambda>conv. inWindow env r now conv \<and> conversationKey env r conv = Some k)
                     (conversation_history s))"
    using entries_lookup [of _ _ _ env s r now] by (auto simp: chartRows_entries)
  show "sum_list (map snd (chartData env (Some s) r now)) =
       length (filter (inWindow env r now) (conversation_history s))"
    by (rule chartData_total)
  show "sum_list (map snd (chartData env (Some s) r now)) \<le> length (conversation_history s)"
    by (simp only: chartData_total length_filter_le)
  show "(sum_list (map snd (chartData env (Some s) r now)) = length (conversation_history s)) =
       (\<forall>conv \<in> set (conversation_history s). inWindow env r now conv)"
    by (simp only: chartData_total length_filter_all)
qed


theorem in_range_counted_once_witness:
  "conversationAt ''2024-01-02T06:30:00Z'' \<in> set (conversation_history exampleStats)
   \<and> inWindow exampleRuntime T12h exampleNow (conversationAt ''2024-01-02T06:30:00Z'')
   \<and> (\<exists>k. conversationKey exampleRuntime T12h (conversationAt ''2024-01-02T06:30:00Z'') = Some k \<and>
            k \<in> fst ` set (initBuckets exampleRuntime T12h exampleNow
                               (startTime T12h exampleNow) []))
   \<and> sum_list (map snd (chartData exampleRuntime (Some exampleStats) T12h exampleNow)) = 3
   \<and> length (conversation_history exampleStats) = 5
   \<and> \<not> (\<forall>conv \<in> set (conversation_history exampleStats).
            inWindow exampleRuntime T12h exampleNow conv)"
proof -
  let ?c = "conversationAt ''2024-01-02T06:30:00Z''"
  have m: "?c \<in> set (conversation_history exampleStats)"
    by (simp add: exampleStats_def)
  have w: "inWindow exampleRuntime T12h exampleNow ?c"
    by (simp add: inWindow_def exampleRuntime_def conversationAt_def exampleNow_def)
  have n: "length (filter (inWindow exampleRuntime T12h exampleNow)
                     (conversation_history exampleStats)) = 3"
    by (simp add: inWindow_def exampleRuntime_def conversationAt_def exampleNow_def
                  exampleStats_def)
  have len: "length (conversation_history exampleStats) = 5"
    by (simp add: exampleStats_def)
  note inst = in_range_counted_once [of exampleStats exampleRuntime T12h exampleNow]
  from inst m w have covered:
    "\<exists>k. conversationKey exampleRuntime T12h ?c = Some k \<and>
         k \<in> fst ` set (initBuckets exampleRuntime T12h exampleNow
                            (startTime T12h exampleNow) [])"
    by blast
  from inst n have total:
    "sum_list (map snd (chartData exampleRuntime (Some exampleStats) T12h exampleNow)) = 3"
    by simp
  from inst total len have
    "\<not> (\<forall>conv \<in> set (conversation_history exampleStats).
          inWindow exampleRuntime T12h exampleNow conv)"
    by simp
  with m w covered total len show ?thesis by blast
qed

text \<open>
  Claim C6. The rows are strictly ascending by their key, hence without duplicate keys, and
  the emitted series is the rows in that order with the key dropped.
\<close>

theorem chartRows_strictly_ascending:
  "sorted_wrt (<) (map fst (chartRows env s r now))
   \<and> distinct (map fst (chartRows env s r now))
   \<and> chartData env (Some s) r now = map snd (chartRows env s r now)"
  using entries_ascending [of env s r now]
  by (simp add: chartRows_entries chartData_def strict_sorted_iff)

text \<open>
  Claim C5. Bucket keys are multiples of the interval length counted from the epoch, not
  offsets from the start of the window: a key of one computation whose interval
  \<open>[k, k + intervalMs]\<close> lies inside the window of another computation with the same range
  (another instant, and any runtime and collection) is a key of that computation too.
\<close>

theorem keys_epoch_aligned:
  assumes "k \<in> fst ` set (chartRows env s r now)"
    and "startTime r now' \<le> k" and "k + intervalMs r \<le> now'"
  shows "k mod intervalMs r = 0 \<and> k \<in> fst ` set (chartRows env' s' r now')"
proof -
  have aligned: "k mod intervalMs r = 0" using assms(1) by (rule rows_key_aligned)
  then have fixed: "bucketTimestamp r k = k" by (simp add: bucketTimestamp_fixed)
  have "k \<le> now'" using assms(3) intervalMs_pos [of r] by linarith
  with assms(2) have "bucketTimestamp r k \<in> fst ` set (initBuckets env' r now' (startTime r now') [])"
    by (rule key_covered)
  with aligned fixed show ?thesis by (simp add: rows_keys)
qed

theorem keys_epoch_aligned_witness:
  "1704157200000 \<in> fst ` set (chartRows exampleRuntime exampleStats T12h exampleNow)
   \<and> startTime T12h (exampleNow + 1800000) \<le> 1704157200000
   \<and> 1704157200000 + intervalMs T12h \<le> exampleNow + 1800000
   \<and> 1704157200000 mod intervalMs T12h = 0
   \<and> 1704157200000 \<in> fst ` set (chartRows exampleRuntime exampleStats T12h (exampleNow + 1800000))"
proof -
  have "bucketTimestamp T12h 1704157200000 \<in>
          fst ` set (initBuckets exampleRuntime T12h exampleNow (startTime T12h exampleNow) [])"
    by (rule key_covered) (simp_all add: exampleNow_def)
  then have a: "1704157200000 \<in> fst ` set (chartRows exampleRuntime exampleStats T12h exampleNow)"
    by (simp add: rows_keys bucketTimestamp_def)
  have b: "startTime T12h (exampleNow + 1800000) \<le> 1704157200000"
    by (simp add: exampleNow_def)
  have c: "1704157200000 + intervalMs T12h \<le> exampleNow + 1800000"
    by (simp add: exampleNow_def)
  from keys_epoch_aligned [OF a b c, of exampleRuntime exampleStats] a b c
  show ?thesis by blast
qed

text \<open>
  Claim C4. The filter is closed on both ends: a conversation whose timestamp is exactly
  \<open>startTime\<close> or exactly \<open>now\<close> passes it and is counted in the bucket of its key; at
  \<open>startTime\<close> that is the first bucket of the series, at \<open>now\<close> the last.
\<close>

theorem window_closed_both_ends:
  assumes "conv \<in> set (conversation_history s)"
    and "parseDate env (created_at conv) = Some t"
    and "t = startTime r now \<or> t = now"
  shows "conv \<in> set (filteredConversations env s r now)
    \<and> (\<exists>l c. (bucketTimestamp r t, l, c) \<in> set (chartRows env s r now) \<and> 0 < c)
    \<and> (t = startTime r now \<longrightarrow> 0 < snd (hd (chartData env (Some s) r now)))
    \<and> (t = now \<longrightarrow> 0 < snd (last (chartData env (Some s) r now)))"
proof -
  let ?rows = "chartRows env s r now"
  have range: "startTime r now \<le> t" "t \<le> now"
    using assms(3) startTime_le [of r now] by auto
  then have win: "inWindow env r now conv"
    using assms(2) by (simp add: inWindow_def)
  have key: "conversationKey env r conv = Some (bucketTimestamp r t)"
    using assms(2) by (simp add: conversationKey_def)
  have pos: "0 < c" if "(bucketTimestamp r t, l, c) \<in> set ?rows" for l c
    using that assms(1) win key by (rule row_count_pos)
  have ne: "?rows \<noteq> []"
    using chartData_nonempty [of env s r now] by (auto simp: chartData_def)
  have data: "chartData env (Some s) r now = map snd ?rows"
    by (simp add: chartData_def)
  have "conv \<in> set (filteredConversations env s r now)"
    using assms(1) win by (simp add: filtered_inWindow)
  moreover have "\<exists>l c. (bucketTimestamp r t, l, c) \<in> set ?rows \<and> 0 < c"
  proof -
    have "bucketTimestamp r t \<in> fst ` set ?rows"
      using key_covered [OF range, of env] by (simp add: rows_keys)
    then obtain l c where "(bucketTimestamp r t, l, c) \<in> set ?rows" by auto
    with pos show ?thesis by blast
  qed
  moreover have "0 < snd (hd (chartData env (Some s) r now))" if "t = startTime r now"
  proof -
    have "fst (hd ?rows) = bucketTimestamp r t"
      using rows_first_key [of env s r now] that by simp
    then obtain l c where row: "hd ?rows = (bucketTimestamp r t, l, c)"
      by (cases "hd ?rows") auto
    have "hd ?rows \<in> set ?rows" using ne by simp
    with row pos have "0 < c" by simp
    with row ne show ?thesis by (simp add: data hd_map)
  qed
  moreover have "0 < snd (last (chartData env (Some s) r now))" if "t = now"
  proof -
    have "fst (last ?rows) = bucketTimestamp r t"
      using rows_last_key [of env s r now] that by simp
    then obtain l c where row: "last ?rows = (bucketTimestamp r t, l, c)"
      by (cases "last ?rows") auto
    have "last ?rows \<in> set ?rows" using ne by simp
    with row pos have "0 < c" by simp
    with row ne show ?thesis by (simp add: data last_map)
  qed
  ultimately show ?thesis by blast
qed

theorem window_closed_both_ends_witness:
  "conversationAt ''2024-01-02T00:00:00Z'' \<in> set (conversation_history exampleStats)
   \<and> parseDate exampleRuntime (created_at (conversationAt ''2024-01-02T00:00:00Z''))
       = Some (startTime T12h exampleNow)
   \<and> conversationAt ''2024-01-02T00:00:00Z''
       \<in> set (filteredConversations exampleRuntime exampleStats T12h exampleNow)
   \<and> 0 < snd (hd (chartData exampleRuntime (Some exampleStats) T12h exampleNow))
   \<and> parseDate exampleRuntime (created_at (conversationAt ''2024-01-02T12:00:00Z''))
       = Some exampleNow
   \<and> 0 < snd (last (chartData exampleRuntime (Some exampleStats) T12h exampleNow))"
proof -
  let ?c = "conversationAt ''2024-01-02T00:00:00Z''"
  let ?d = "conversationAt ''2024-01-02T12:00:00Z''"
  have m: "?c \<in> set (conversation_history exampleStats)"
    by (simp add: exampleStats_def)
  have p: "parseDate exampleRuntime (created_at ?c) = Some (startTime T12h exampleNow)"
    by (simp add: exampleRuntime_def conversationAt_def exampleNow_def)
  have b: "startTime T12h exampleNow = startTime T12h exampleNow \<or>
           startTime T12h exampleNow = exampleNow"
    by simp
  note inst = window_closed_both_ends [OF m p b]
  from inst have f: "?c \<in> set (filteredConversations exampleRuntime exampleStats T12h exampleNow)"
    by (rule conjunct1)
  from inst have "startTime T12h exampleNow = startTime T12h exampleNow \<longrightarrow>
      0 < snd (hd (chartData exampleRuntime (Some exampleStats) T12h exampleNow))"
    by (rule conjunct1 [OF conjunct2 [OF conjunct2]])
  then have h: "0 < snd (hd (chartData exampleRuntime (Some exampleStats) T12h exampleNow))"
    by (rule mp) (rule refl)
  have m': "?d \<in> set (conversation_history exampleStats)"
    by (simp add: exampleStats_def)
  have p': "parseDate exampleRuntime (created_at ?d) = Some exampleNow"
    by (simp add: exampleRuntime_def conversationAt_def exampleNow_def)
  have b': "exampleNow = startTime T12h exampleNow \<or> exampleNow = exampleNow"
    by simp
  from window_closed_both_ends [OF m' p' b']
  have "exampleNow = exampleNow \<longrightarrow>
      0 < snd (last (chartData exampleRuntime (Some exampleStats) T12h exampleNow))"
    by (rule conjunct2 [OF conjunct2 [OF conjunct2]])
  then have l: "0 < snd (last (chartData exampleRuntime (Some exampleStats) T12h exampleNow))"
    by (rule mp) (rule refl)
  show ?thesis by (intro conjI m p f h p' l)
qed

text \<open>
  Claim C7. A conversation whose \<^verbatim>\<open>created_at\<close> does not parse is not among the filtered
  conversations, and the series is the one computed without it: it is dropped silently,
  and the computation returns its series all the same.
\<close>

theorem unparseable_dropped:
  assumes "parseDate env (created_at conv) = None"
  shows "conv \<notin> set (filteredConversations env
                        (s\<lparr>conversation_history := xs @ conv # ys\<rparr>) r now)
    \<and> chartData env (Some (s\<lparr>conversation_history := xs @ conv # ys\<rparr>)) r now =
       chartData env (Some (s\<lparr>conversation_history := xs @ ys\<rparr>)) r now"
proof -
  have out: "\<not> inWindow env r now conv"
    using assms by (simp add: inWindow_def)
  then have "filteredConversations env (s\<lparr>conversation_history := xs @ conv # ys\<rparr>) r now =
             filteredConversations env (s\<lparr>conversation_history := xs @ ys\<rparr>) r now"
    by (simp add: filtered_inWindow)
  then have "chartData env (Some (s\<lparr>conversation_history := xs @ conv # ys\<rparr>)) r now =
             chartData env (Some (s\<lparr>conversation_history := xs @ ys\<rparr>)) r now"
    by (rule chartData_filtered)
  moreover have "conv \<notin> set (filteredConversations env
                        (s\<lparr>conversation_history := xs @ conv # ys\<rparr>) r now)"
    using out by (simp add: filtered_inWindow)
  ultimately show ?thesis by simp
qed

theorem unparseable_dropped_witness:
  "parseDate exampleRuntime (created_at (conversationAt ''yesterday-ish'')) = None
   \<and> chartData exampleRuntime
        (Some (exampleStats\<lparr>conversation_history :=
           [conversationAt ''2024-01-02T06:30:00Z''] @ conversationAt ''yesterday-ish'' #
           [conversationAt ''2024-01-02T12:00:00Z'']\<rparr>)) T12h exampleNow =
       chartData exampleRuntime
        (Some (exampleStats\<lparr>conversation_history :=
           [conversationAt ''2024-01-02T06:30:00Z''] @
           [conversationAt ''2024-01-02T12:00:00Z'']\<rparr>)) T12h exampleNow"
proof -
  have p: "parseDate exampleRuntime (created_at (conversationAt ''yesterday-ish'')) = None"
    by (simp add: exampleRuntime_def conversationAt_def)
  from unparseable_dropped [where s = exampleStats
      and xs = "[conversationAt ''2024-01-02T06:30:00Z'']"
      and ys = "[conversationAt ''2024-01-02T12:00:00Z'']"
      and r = T12h and now = exampleNow, OF p]
  have "chartData exampleRuntime
        (Some (exampleStats\<lparr>conversation_history :=
           [conversationAt ''2024-01-02T06:30:00Z''] @ conversationAt ''yesterday-ish'' #
           [conversationAt ''2024-01-02T12:00:00Z'']\<rparr>)) T12h exampleNow =
       chartData exampleRuntime
        (Some (exampleStats\<lparr>conversation_history :=
           [conversationAt ''2024-01-02T06:30:00Z''] @
           [conversationAt ''2024-01-02T12:00:00Z'']\<rparr>)) T12h exampleNow"
    by (rule conjunct2)
  with p show ?thesis by (rule conjI)
qed

text \<open>
  Claim C3, as stated, fails: at \<open>now\<close> = 2024-01-02T12:01:00Z and range \<open>12h\<close> the first
  bucket has the key 00:00:00 while its label was formatted from the loop instant 00:01:00.
\<close>

theorem label_instant_counterexample:
  "hd (initBuckets exampleRuntime T12h 1704196860000 (startTime T12h 1704196860000) [])
     = (1704153600000, 1704153660000, 0)
   \<and> formatLabel exampleRuntime T12h 1704153600000 \<noteq> 1704153660000"
  using initial_buckets [of exampleRuntime T12h 1704196860000]
  by (simp add: bucketCount_def upt_conv_Cons bucketAt_def loopInstant_def
                bucketTimestamp_def exampleRuntime_def)

text \<open>
  Claim C3, amended. The \<open>i\<close>-th bucket the initialisation creates has the key
  \<open>floor(c / intervalMs) * intervalMs\<close> and the label of the formatter applied to the loop
  instant \<open>c = startTime + i * intervalMs\<close>. The loop instant lies in the bucket's interval
  \<open>[key, key + intervalMs)\<close>, and it equals the key exactly when \<open>now\<close> is a multiple of
  \<open>intervalMs\<close>.
\<close>

theorem labels_at_loop_instants:
  "initBuckets env r now (startTime r now) [] =
     map (\<lambda>i. (bucketTimestamp r (loopInstant r (startTime r now) i),
               formatLabel env r (loopInstant r (startTime r now) i), 0))
         [0..<bucketCount r]
   \<and> (\<forall>i. bucketTimestamp r (loopInstant r (startTime r now) i) \<le> loopInstant r (startTime r now) i
          \<and> loopInstant r (startTime r now) i
              < bucketTimestamp r (loopInstant r (startTime r now) i) + intervalMs r)
   \<and> (\<forall>i. (bucketTimestamp r (loopInstant r (startTime r now) i) = loopInstant r (startTime r now) i)
          = (now mod intervalMs r = 0))"
proof -
  have "initBuckets env r now (startTime r now) [] =
     map (\<lambda>i. (bucketTimestamp r (loopInstant r (startTime r now) i),
               formatLabel env r (loopInstant r (startTime r now) i), 0))
         [0..<bucketCount r]"
    using initial_buckets [of env r now] by (simp add: bucketAt_def [abs_def])
  then show ?thesis
    by (simp add: bucketTimestamp_le bucketTimestamp_gt bucketTimestamp_fixed loopInstant_mod)
qed

section \<open>The average rating\<close>

lemma truthy_rated: "truthy (quality_rating c) = rated c"
  by (cases "quality_rating c") (simp_all add: truthy_def rated_def)

lemma or_zero_value: "or_zero v = (case v of None \<Rightarrow> 0 | Some q \<Rightarrow> q)"
  by (cases v) (simp_all add: or_zero_def)

lemma foldl_plus: "foldl (\<lambda>sum x. sum + f x) (a :: rat) xs = a + sum_list (map f xs)"
  by (induction xs arbitrary: a) simp_all

lemma no_rated: "(length (filter rated cs) = 0) = (\<not> (\<exists>c \<in> set cs. rated c))"
  by (simp add: filter_empty_conv)

text \<open>
  Claim C9. \<open>calculateAverageRating\<close> returns the average as the claim words it: 0 when no
  conversation is rated, otherwise the sum of the ratings (a missing one counting 0) divided
  by the number of rated conversations. The result is always a number, so the division by
  zero is not reached: with a rated conversation the divisor is positive. No conversation
  counted in the divisor has the rating 0.
\<close>

theorem calculateAverageRating_spec:
  "calculateAverageRating cs = Some (averageRating_spec cs)
   \<and> ((\<exists>c \<in> set cs. rated c) \<longrightarrow> 0 < length (filter rated cs))
   \<and> (\<forall>c \<in> set (filter rated cs). quality_rating c \<noteq> Some 0)"
proof (intro conjI)
  show "calculateAverageRating cs = Some (averageRating_spec cs)"
  proof (cases "\<exists>c \<in> set cs. rated c")
    case False
    then have "length (filter rated cs) = 0" using no_rated [of cs] by blast
    with False show ?thesis
      by (simp add: calculateAverageRating_def averageRating_spec_def truthy_rated)
  next
    case True
    then have "length (filter rated cs) \<noteq> 0" using no_rated [of cs] by blast
    with True show ?thesis
      by (simp add: calculateAverageRating_def averageRating_spec_def truthy_rated
                    divide_number_def foldl_plus or_zero_value [abs_def])
  qed
  show "(\<exists>c \<in> set cs. rated c) \<longrightarrow> 0 < length (filter rated cs)"
    using no_rated [of cs] by auto
  show "\<forall>c \<in> set (filter rated cs). quality_rating c \<noteq> Some 0"
    by (simp add: rated_def)
qed

theorem calculateAverageRating_spec_witness:
  "calculateAverageRating
     [ratedConversation (Some 4), ratedConversation (Some 0), ratedConversation None,
      ratedConversation (Some 5)] = Some (9 / 2)
   \<and> 0 < length (filter rated
        [ratedConversation (Some 4), ratedConversation (Some 0), ratedConversation None,
         ratedConversation (Some 5)])
   \<and> calculateAverageRating [ratedConversation (Some 0), ratedConversation None] = Some 0"
proof -
  have r: "\<exists>c \<in> set [ratedConversation (Some 4), ratedConversation (Some 0),
                       ratedConversation None, ratedConversation (Some 5)]. rated c"
    by (simp add: rated_def ratedConversation_def exampleInfo_def)
  have a: "averageRating_spec
     [ratedConversation (Some 4), ratedConversation (Some 0), ratedConversation None,
      ratedConversation (Some 5)] = 9 / 2"
    by (simp add: averageRating_spec_def rated_def ratedConversation_def exampleInfo_def)
  have b: "averageRating_spec [ratedConversation (Some 0), ratedConversation None] = 0"
    by (simp add: averageRating_spec_def rated_def ratedConversation_def exampleInfo_def)
  from calculateAverageRating_spec
     [of "[ratedConversation (Some 4), ratedConversation (Some 0), ratedConversation None,
      ratedConversation (Some 5)]"]
  have "calculateAverageRating
     [ratedConversation (Some 4), ratedConversation (Some 0), ratedConversation None,
      ratedConversation (Some 5)] = Some (9 / 2)"
    by (simp only: a)
  moreover from r calculateAverageRating_spec
     [of "[ratedConversation (Some 4), ratedConversation (Some 0), ratedConversation None,
      ratedConversation (Some 5)]"]
  have "0 < length (filter rated
        [ratedConversation (Some 4), ratedConversation (Some 0), ratedConversation None,
         ratedConversation (Some 5)])"
    by blast
  moreover from calculateAverageRating_spec
     [of "[ratedConversation (Some 0), ratedConversation None]"]
  have "calculateAverageRating [ratedConversation (Some 0), ratedConversation None] = Some 0"
    by (simp only: b)
  ultimately show ?thesis by (intro conjI)
qed

section \<open>The pages of the conversation and note lists\<close>

text \<open>
  Claim C10. The claim, like the comment on each sort (\<^verbatim>\<open>Sort ... in descending order\<close>),
  takes the rendered page to be a slice of the list in descending order of its timestamps.
  The code does not deliver that for a timestamp the \<^verbatim>\<open>Date\<close> constructor does not parse,
  such as the ISO-8601 week date \<^verbatim>\<open>2024-W01-2\<close>, which the \<^verbatim>\<open>parseISO\<close> of the row's
  own \<^verbatim>\<open>formatDateTime\<close> reads. With the three timestamps 00:00:00, the week date and
  12:00:00 of 2024-01-02, page 1 of both components is the input as it came: the item of
  00:00:00 stands before the item of 12:00:00. With 2024-01-01T10:00:00 in front, page 1 is
  12:00:00, 00:00:00, 10:00:00 of the day before, and the week date last.
\<close>

theorem page_not_descending_at_week_date:
  "1 \<le> RecentConversations_totalPages
          [exampleInfo ''2024-01-02T00:00:00Z'' None, exampleInfo ''2024-W01-2'' None,
           exampleInfo ''2024-01-02T12:00:00Z'' None]
   \<and> currentConversations exampleRuntime
        [exampleInfo ''2024-01-02T00:00:00Z'' None, exampleInfo ''2024-W01-2'' None,
         exampleInfo ''2024-01-02T12:00:00Z'' None] 1 =
       Some [exampleInfo ''2024-01-02T00:00:00Z'' None, exampleInfo ''2024-W01-2'' None,
             exampleInfo ''2024-01-02T12:00:00Z'' None]
   \<and> parseDate exampleRuntime (generated_at (exampleInfo ''2024-01-02T00:00:00Z'' None))
        = Some 1704153600000
   \<and> parseDate exampleRuntime (generated_at (exampleInfo ''2024-01-02T12:00:00Z'' None))
        = Some 1704196800000
   \<and> 1 \<le> NotesPage_totalPages
          [exampleNote ''2024-01-02T00:00:00Z'', exampleNote ''2024-W01-2'',
           exampleNote ''2024-01-02T12:00:00Z'']
   \<and> currentNotes exampleRuntime
        [exampleNote ''2024-01-02T00:00:00Z'', exampleNote ''2024-W01-2'',
         exampleNote ''2024-01-02T12:00:00Z''] 1 =
       Some [exampleNote ''2024-01-02T00:00:00Z'', exampleNote ''2024-W01-2'',
             exampleNote ''2024-01-02T12:00:00Z'']
   \<and> currentConversations exampleRuntime
        [exampleInfo ''2024-01-01T10:00:00Z'' None, exampleInfo ''2024-01-02T00:00:00Z'' None,
         exampleInfo ''2024-W01-2'' None, exampleInfo ''2024-01-02T12:00:00Z'' None] 1 =
       Some [exampleInfo ''2024-01-02T12:00:00Z'' None, exampleInfo ''2024-01-02T00:00:00Z'' None,
             exampleInfo ''2024-01-01T10:00:00Z'' None, exampleInfo ''2024-W01-2'' None]"
  by (simp add: RecentConversations_totalPages_def conversationsPerPage_def
        NotesPage_totalPages_def notesPerPage_def
        currentConversations_def sortedConversations_def currentNotes_def sortedNotes_def
        array_sort_def BinaryInsertionSort_def insertPivot_def insertionPoint.simps
        Compare_def array_slice_def time_diff_def upt_conv_Cons
        exampleRuntime_def exampleInfo_def exampleNote_def)

end
